theory Spec2Isabelle
  imports Main "HOL-Library.Sublist"
begin

section \<open>Python strings\<close>

text \<open>
  A Python \<open>str\<close> is modelled as a \<open>string\<close>; each \<open>char\<close> stands for one code
  point below 256. \<open>isspace\<close> is \<open>str.isspace\<close> on one such code point: the
  characters \<open>\t \n \v \f \r\<close>, the separators \<open>0x1c\<close> to \<open>0x1f\<close>, the blank,
  \<open>0x85\<close> and \<open>0xa0\<close>. It is also the class that \<open>\s\<close> denotes in a \<open>str\<close> regular
  expression.
\<close>

definition isspace :: "char \<Rightarrow> bool" where
  "isspace c =
     (let n = (of_char c :: nat)
      in (9 \<le> n \<and> n \<le> 13) \<or> (28 \<le> n \<and> n \<le> 32) \<or> n = 133 \<or> n = 160)"

text \<open>
  \<open>pattern.split()\<close> with no argument: the words between runs of whitespace, nothing for
  a leading or a trailing run. \<open>split_ws cur s\<close> scans \<open>s\<close> with the word read so
  far in \<open>cur\<close>.
\<close>

fun split_ws :: "string \<Rightarrow> string \<Rightarrow> string list" where
  "split_ws cur [] = (if cur = [] then [] else [cur])"
| "split_ws cur (c # cs) =
     (if isspace c
      then (if cur = [] then split_ws [] cs else cur # split_ws [] cs)
      else split_ws (cur @ [c]) cs)"

definition py_split :: "string \<Rightarrow> string list" where
  "py_split s = split_ws [] s"

text \<open>\<open>sep.join(words)\<close>.\<close>

fun py_join :: "string \<Rightarrow> string list \<Rightarrow> string" where
  "py_join sep [] = []"
| "py_join sep [w] = w"
| "py_join sep (w # v # ws) = w @ sep @ py_join sep (v # ws)"

text \<open>\<open>s.strip()\<close>: \<open>s\<close> without its leading and trailing whitespace.\<close>

definition py_strip :: "string \<Rightarrow> string" where
  "py_strip s = rev (dropWhile isspace (rev (dropWhile isspace s)))"

text \<open>The raw string \<open>r'\s+'\<close>: a backslash, \<open>s\<close> and \<open>+\<close>.\<close>

definition ws_token :: string where
  "ws_token = [CHR 0x5C, CHR ''s'', CHR ''+'']"

text \<open>
  \<open>'{}{}'.format(prefix, pattern)\<close>. \<open>format\<close> renders its arguments with \<open>str()\<close>, so
  a \<open>str\<close> prefix is itself and \<open>None\<close> is the text \<open>None\<close>.
\<close>

definition py_str :: "string option \<Rightarrow> string" where
  "py_str v = (case v of None \<Rightarrow> ''None'' | Some s \<Rightarrow> s)"

definition py_format2 :: "string option \<Rightarrow> string \<Rightarrow> string" where
  "py_format2 pfx pattern = py_str pfx @ pattern"

section \<open>The regular expression library\<close>

text \<open>
  Python's \<open>re\<close> module is outside the repository, so the operations take it as a
  parameter: \<open>re_compile\<close> gives the compiled expression or \<open>None\<close> where
  \<open>re.compile\<close> raises \<open>re.error\<close>; \<open>re_match r line\<close> is \<open>r.match(line)\<close>, a match
  object for a match that starts at the first character of \<open>line\<close>, or \<open>None\<close>.
\<close>

record ('r, 'm) re_engine =
  re_compile :: "string \<Rightarrow> 'r option"
  re_match :: "'r \<Rightarrow> string \<Rightarrow> 'm option"

text \<open>What a Python callable may hand back to the monitor.\<close>

datatype 'm pyval = PyNone | PyBool bool | PyMatch 'm

datatype error =
    ReError
  | TimeoutError string
  | OSError string
  | OverflowError

section \<open>event\_monitor.py: the callback construction\<close>

text \<open>
  \<^verbatim>\<open>
  def make_analysisd_callback(pattern, prefix=eps.ANALYSISD_PREFIX):
      pattern = r'\s+'.join(pattern.split())
      regex = re.compile(r'{}{}'.format(prefix, pattern))
      return lambda line: regex.match(line) is not None
  \<close>
\<close>

definition normalize_pattern :: "string \<Rightarrow> string" where
  "normalize_pattern pattern = py_join ws_token (py_split pattern)"

definition regex_source :: "string \<Rightarrow> string option \<Rightarrow> string" where
  "regex_source pattern pfx = py_format2 pfx (normalize_pattern pattern)"

definition make_analysisd_callback ::
  "('r, 'm) re_engine \<Rightarrow> string \<Rightarrow> string option \<Rightarrow> error + (string \<Rightarrow> 'm pyval)" where
  "make_analysisd_callback re pattern pfx =
     (case re_compile re (regex_source pattern pfx) of
        None \<Rightarrow> Inl ReError
      | Some regex \<Rightarrow> Inr (\<lambda>line. PyBool (re_match re regex line \<noteq> None)))"

text \<open>
  Two observers: the matcher that the construction returns, applied to a line (nothing if
  the construction raised), and an expression compiled and matched against a line.
\<close>

definition apply_callback :: "error + (string \<Rightarrow> 'm pyval) \<Rightarrow> string \<Rightarrow> 'm pyval option" where
  "apply_callback made line = (case made of Inl e \<Rightarrow> None | Inr f \<Rightarrow> Some (f line))"

definition compile_and_match ::
  "('r, 'm) re_engine \<Rightarrow> string \<Rightarrow> string \<Rightarrow> 'm option option" where
  "compile_and_match re expr line =
     (case re_compile re expr of None \<Rightarrow> None | Some regex \<Rightarrow> Some (re_match re regex line))"

text \<open>
  The normalisation as the specification words it: every run of whitespace characters
  of the pattern, wherever it stands, becomes one \<open>\s+\<close> token. The token is written
  when the last character of a run is read.
\<close>

fun collapse_ws :: "string \<Rightarrow> string" where
  "collapse_ws [] = []"
| "collapse_ws [c] = (if isspace c then ws_token else [c])"
| "collapse_ws (c # d # cs) =
     (if isspace c
      then (if isspace d then collapse_ws (d # cs) else ws_token @ collapse_ws (d # cs))
      else c # collapse_ws (d # cs))"

section \<open>A small regular expression engine\<close>

text \<open>
  An instance of the library for concrete runs: the fragment of the \<open>re\<close> syntax made of
  literal characters, \<open>.\<close>, the classes \<open>\s\<close> and \<open>\d\<close>, escaped punctuation, and the
  greedy postfix operators \<open>*\<close>, \<open>+\<close> and \<open>?\<close>. An expression outside the fragment is
  not compiled. The match object is the matched text (group 0).
\<close>

datatype atom = Lit char | AnyChar | SpaceCls | DigitCls

datatype quant = Once | Star | Plus | Opt

datatype tok = TAtom atom | TQuant quant

definition isdigit :: "char \<Rightarrow> bool" where
  "isdigit c = (let n = (of_char c :: nat) in 48 \<le> n \<and> n \<le> 57)"

definition isalpha_ascii :: "char \<Rightarrow> bool" where
  "isalpha_ascii c =
     (let n = (of_char c :: nat) in (65 \<le> n \<and> n \<le> 90) \<or> (97 \<le> n \<and> n \<le> 122))"

definition plain_tok :: "char \<Rightarrow> tok option" where
  "plain_tok c =
     (if c = CHR ''.'' then Some (TAtom AnyChar)
      else if c = CHR ''*'' then Some (TQuant Star)
      else if c = CHR ''+'' then Some (TQuant Plus)
      else if c = CHR ''?'' then Some (TQuant Opt)
      else if c \<in> set ''()[]{}|^$'' then None
      else Some (TAtom (Lit c)))"

definition escaped_tok :: "char \<Rightarrow> tok option" where
  "escaped_tok c =
     (if c = CHR ''s'' then Some (TAtom SpaceCls)
      else if c = CHR ''d'' then Some (TAtom DigitCls)
      else if isalpha_ascii c \<or> isdigit c then None
      else Some (TAtom (Lit c)))"

fun tokens :: "bool \<Rightarrow> string \<Rightarrow> tok list option" where
  "tokens esc [] = (if esc then None else Some [])"
| "tokens esc (c # cs) =
     (if esc
      then (case escaped_tok c of
              None \<Rightarrow> None
            | Some t \<Rightarrow> map_option ((#) t) (tokens False cs))
      else if c = CHR 0x5C then tokens True cs
      else (case plain_tok c of
              None \<Rightarrow> None
            | Some t \<Rightarrow> map_option ((#) t) (tokens False cs)))"

fun attach :: "tok list \<Rightarrow> (atom \<times> quant) list option" where
  "attach [] = Some []"
| "attach (TAtom a # TQuant q # ts) = map_option ((#) (a, q)) (attach ts)"
| "attach (TAtom a # ts) = map_option ((#) (a, Once)) (attach ts)"
| "attach (TQuant q # ts) = None"

definition mini_compile :: "string \<Rightarrow> (atom \<times> quant) list option" where
  "mini_compile s = (case tokens False s of None \<Rightarrow> None | Some ts \<Rightarrow> attach ts)"

fun atom_ok :: "atom \<Rightarrow> char \<Rightarrow> bool" where
  "atom_ok (Lit a) c = (a = c)"
| "atom_ok AnyChar c = (c \<noteq> CHR 0x0A)"
| "atom_ok SpaceCls c = isspace c"
| "atom_ok DigitCls c = isdigit c"

text \<open>
  \<open>rmatch r s\<close>: the length of the greedy match of \<open>r\<close> at the start of \<open>s\<close>, by
  backtracking from the longest repetition.
\<close>

fun rmatch :: "(atom \<times> quant) list \<Rightarrow> string \<Rightarrow> nat option" where
  "rmatch [] s = Some 0"
| "rmatch ((a, Once) # r) [] = None"
| "rmatch ((a, Once) # r) (c # cs) =
     (if atom_ok a c then map_option Suc (rmatch r cs) else None)"
| "rmatch ((a, Star) # r) [] = rmatch r []"
| "rmatch ((a, Star) # r) (c # cs) =
     (if atom_ok a c
      then (case rmatch ((a, Star) # r) cs of
              Some n \<Rightarrow> Some (Suc n)
            | None \<Rightarrow> rmatch r (c # cs))
      else rmatch r (c # cs))"
| "rmatch ((a, Plus) # r) [] = None"
| "rmatch ((a, Plus) # r) (c # cs) =
     (if atom_ok a c then map_option Suc (rmatch ((a, Star) # r) cs) else None)"
| "rmatch ((a, Opt) # r) [] = rmatch r []"
| "rmatch ((a, Opt) # r) (c # cs) =
     (if atom_ok a c
      then (case rmatch r cs of
              Some n \<Rightarrow> Some (Suc n)
            | None \<Rightarrow> rmatch r (c # cs))
      else rmatch r (c # cs))"

definition mini_match :: "(atom \<times> quant) list \<Rightarrow> string \<Rightarrow> string option" where
  "mini_match r line = map_option (\<lambda>n. take n line) (rmatch r line)"

definition mini_re :: "((atom \<times> quant) list, string) re_engine" where
  "mini_re = \<lparr>re_compile = mini_compile, re_match = mini_match\<rparr>"

section \<open>The file monitor\<close>

text \<open>
  The module \<open>wazuh_testing.tools.monitoring\<close> (\<open>FileMonitor\<close>, \<open>QueueMonitor\<close>,
  \<open>ManInTheMiddle\<close>, \<open>make_callback\<close>) is not among the sources. The monitor below
  is written from sections 3 and 4.2 of the specification.
\<close>

text \<open>
  Modelled from the spec: the \<open>FileMonitor\<close> object, the line source state of section 3,
  a path and the last read offset (counted in lines). A new monitor has read nothing.
\<close>

record file_monitor =
  file_path :: string
  position :: nat

definition FileMonitor :: "string \<Rightarrow> file_monitor" where
  "FileMonitor path = \<lparr>file_path = path, position = 0\<rparr>"

text \<open>
  Modelled from the spec: a growing text file. \<open>written\<close> is every line the daemon
  writes, in order; \<open>flushed k\<close> is how many of them are in the file at poll iteration \<open>k\<close>
  of a call.
\<close>

record source =
  written :: "string list"
  flushed :: "nat \<Rightarrow> nat"

text \<open>A file that holds the lines \<open>ls\<close> and does not change.\<close>

definition static_source :: "string list \<Rightarrow> source" where
  "static_source ls = \<lparr>written = ls, flushed = (\<lambda>k. length ls)\<rparr>"

text \<open>A file into which each poll iteration finds one more line flushed.\<close>

definition growing_source :: "string list \<Rightarrow> source" where
  "growing_source ls = \<lparr>written = ls, flushed = (\<lambda>k. Suc k)\<rparr>"

text \<open>
  Modelled from the spec: the monitor request of section 3, the keyword arguments of
  \<open>start\<close> as the callers in the repository pass them. \<open>timeout\<close> counts the poll iterations that fit in the timeout. \<open>accum_results\<close> is
  \<open>None\<close> when the caller leaves it to the default.
\<close>

record 'm start_kwargs =
  timeout :: nat
  callback :: "string \<Rightarrow> 'm pyval"
  update_position :: bool
  accum_results :: "nat option"
  error_message :: string

text \<open>
  Modelled from the spec: the success of section 3 and step 2c, the single match for
  \<open>accum_results = 1\<close> and the list of matches otherwise.
\<close>

datatype 'm match_result = Single "'m pyval" | Multi "'m pyval list"

text \<open>Python truth of a callback's result: a match object is true, \<open>None\<close> is false.\<close>

fun truthy :: "'m pyval \<Rightarrow> bool" where
  "truthy PyNone = False"
| "truthy (PyBool b) = b"
| "truthy (PyMatch m) = True"

text \<open>Two callbacks for concrete runs: the line is \<open>w\<close>, the line starts with \<open>w\<close>.\<close>

definition line_is :: "string \<Rightarrow> string \<Rightarrow> string pyval" where
  "line_is w line = PyBool (line = w)"

definition starts_with :: "string \<Rightarrow> string \<Rightarrow> string pyval" where
  "starts_with w line = PyBool (prefix w line)"

text \<open>
  Modelled from the spec: steps 2b and 2c of section 4.2 on the lines of one read. Each
  line in order goes to the callback, a match is appended to the accumulator, and the scan
  stops when the counter equals \<open>accum_results\<close>. The result is the accumulator, the
  number of lines consumed and whether the count was reached.
\<close>

fun scan ::
  "(string \<Rightarrow> 'm pyval) \<Rightarrow> nat \<Rightarrow> 'm pyval list \<Rightarrow> string list
     \<Rightarrow> 'm pyval list \<times> nat \<times> bool" where
  "scan cb n acc [] = (acc, 0, False)"
| "scan cb n acc (l # ls) =
     (let r = cb l in
      if truthy r
      then (if Suc (length acc) = n then (acc @ [r], 1, True)
            else (case scan cb n (acc @ [r]) ls of
                    (acc', used, fin) \<Rightarrow> (acc', Suc used, fin)))
      else (case scan cb n acc ls of
              (acc', used, fin) \<Rightarrow> (acc', Suc used, fin)))"

text \<open>
  Modelled from the spec: the loop of step 2. \<open>poll cb n src k tick off acc\<close> has \<open>k\<close>
  iterations left before the timeout, is at iteration \<open>tick\<close>, has read \<open>off\<close> lines and
  holds the matches \<open>acc\<close>. An iteration reads what the file holds beyond the offset (2a),
  scans it, and either stops with the matches or goes on from the new offset, keeping the
  accumulator. With no iteration left the result is \<open>None\<close> (step 3).
\<close>

fun poll ::
  "(string \<Rightarrow> 'm pyval) \<Rightarrow> nat \<Rightarrow> source \<Rightarrow> nat \<Rightarrow> nat \<Rightarrow> nat \<Rightarrow> 'm pyval list
     \<Rightarrow> 'm pyval list option \<times> nat" where
  "poll cb n src 0 tick off acc = (None, off)"
| "poll cb n src (Suc k) tick off acc =
     (case scan cb n acc (drop off (take (flushed src tick) (written src))) of
        (acc', used, fin) \<Rightarrow>
          if fin then (Some acc', off + used)
          else poll cb n src k (Suc tick) (off + used) acc')"

text \<open>
  Modelled from the spec: step 2c, \<open>for accum_results==1, return the single match/groups
  object directly, not a list\<close>.
\<close>

fun result_of :: "nat \<Rightarrow> 'm pyval list \<Rightarrow> 'm match_result" where
  "result_of n [r] = (if n = 1 then Single r else Multi [r])"
| "result_of n acc = Multi acc"

text \<open>
  Modelled from the spec: the number of matches that a call waits for. The specification
  names no default for \<open>accum_results\<close>, so the default of the absent \<open>start\<close> is the
  parameter \<open>dflt\<close>.
\<close>

definition accum_of :: "nat \<Rightarrow> 'm start_kwargs \<Rightarrow> nat" where
  "accum_of dflt kw = (case accum_results kw of None \<Rightarrow> dflt | Some a \<Rightarrow> a)"

text \<open>
  Modelled from the spec: step 1 of section 4.2, the starting offset, \<open>0 if
  update_position=false or first run; else last remembered offset\<close>.
\<close>

definition start_offset :: "file_monitor \<Rightarrow> 'm start_kwargs \<Rightarrow> nat" where
  "start_offset mon kw = (if update_position kw then position mon else 0)"

text \<open>
  Modelled from the spec: \<open>FileMonitor.start\<close>, section 4.2, which is not among the
  sources. The scan starts at the starting offset (step 1); on success the new offset is
  remembered if \<open>update_position\<close> (2c); on timeout the failure carries \<open>error_message\<close>
  (step 3) and the remembered offset is left as it was.
\<close>

definition start ::
  "nat \<Rightarrow> file_monitor \<Rightarrow> 'm start_kwargs \<Rightarrow> source
     \<Rightarrow> (error + 'm match_result) \<times> file_monitor" where
  "start dflt mon kw src =
     (let n = accum_of dflt kw;
          off0 = start_offset mon kw
      in case poll (callback kw) n src (timeout kw) 0 off0 [] of
           (Some acc, off) \<Rightarrow>
             (Inr (result_of n acc),
              if update_position kw then mon\<lparr>position := off\<rparr> else mon)
         | (None, off) \<Rightarrow> (Inl (TimeoutError (error_message kw)), mon))"

text \<open>
  What a call can observe: \<open>horizon_from src tick k\<close> is the largest number of flushed
  lines over the \<open>k\<close> iterations from \<open>tick\<close> on, \<open>observed src T off\<close> the lines beyond
  offset \<open>off\<close> that are in the file at some iteration before the timeout \<open>T\<close>, and
  \<open>matches_seen\<close> the callback's true results on them, in order.
\<close>

fun horizon_from :: "source \<Rightarrow> nat \<Rightarrow> nat \<Rightarrow> nat" where
  "horizon_from src tick 0 = 0"
| "horizon_from src tick (Suc k) = max (flushed src tick) (horizon_from src (Suc tick) k)"

definition observed :: "source \<Rightarrow> nat \<Rightarrow> nat \<Rightarrow> string list" where
  "observed src T off = drop off (take (horizon_from src 0 T) (written src))"

definition matches_seen ::
  "(string \<Rightarrow> 'm pyval) \<Rightarrow> source \<Rightarrow> nat \<Rightarrow> nat \<Rightarrow> 'm pyval list" where
  "matches_seen cb src T off = filter truthy (map cb (observed src T off))"

section \<open>The monitor wrappers\<close>

text \<open>
  The wrappers receive a monitor object and call its \<open>start\<close> method; the method is a
  parameter. None of them returns the monitor's result.
\<close>

type_synonym 'm start_method =
  "'m start_kwargs \<Rightarrow> file_monitor \<Rightarrow> (error + 'm match_result) \<times> file_monitor"

text \<open>
  The \<open>start\<close> method of the monitor above, reading the file that the monitor is bound to
  from the file system \<open>fs\<close>.
\<close>

definition start_on :: "nat \<Rightarrow> (string \<Rightarrow> source) \<Rightarrow> 'm start_method" where
  "start_on dflt fs kw mon = start dflt mon kw (fs (file_path mon))"

text \<open>A file system for concrete runs: every file is empty and stays so.\<close>

definition empty_fs :: "string \<Rightarrow> source" where
  "empty_fs path = static_source []"

definition discard_result :: "(error + 'a) \<times> 's \<Rightarrow> (error + unit) \<times> 's" where
  "discard_result r = (case r of (Inl e, s) \<Rightarrow> (Inl e, s) | (Inr v, s) \<Rightarrow> (Inr (), s))"

text \<open>
  \<^verbatim>\<open>
  def detect_archives_log_event(archives_monitor, callback, error_message,
                                update_position=True, timeout=5):
      archives_monitor.start(timeout=timeout, update_position=update_position,
                             callback=callback, error_message=error_message)
  \<close>
\<close>

definition detect_archives_log_event ::
  "'m start_method \<Rightarrow> file_monitor \<Rightarrow> (string \<Rightarrow> 'm pyval) \<Rightarrow> string \<Rightarrow> bool \<Rightarrow> nat
     \<Rightarrow> (error + unit) \<times> file_monitor" where
  "detect_archives_log_event start_m archives_monitor cb msg upd tmo =
     discard_result
       (start_m \<lparr>timeout = tmo, callback = cb, update_position = upd,
                 accum_results = None, error_message = msg\<rparr> archives_monitor)"

text \<open>
  \<^verbatim>\<open>
  def check_analysisd_event(file_monitor=None, callback='', error_message=None,
                            update_position=True, timeout=eps.T_60,
                            prefix=eps.ANALYSISD_PREFIX, accum_results=1,
                            file_to_monitor=LOG_FILE_PATH):
      file_monitor = FileMonitor(file_to_monitor) if file_monitor is None else file_monitor
      error_message = f"Could not find this event in {file_to_monitor}: {callback}" \
          if error_message is None else error_message
      file_monitor.start(timeout=timeout, update_position=update_position,
                         accum_results=accum_results,
                         callback=make_analysisd_callback(callback, prefix),
                         error_message=error_message)
  \<close>
  The constants behind the defaults (\<open>eps.T_60\<close>, \<open>eps.ANALYSISD_PREFIX\<close>,
  \<open>LOG_FILE_PATH\<close>) are not among the sources, so every argument is explicit.
\<close>

definition default_error_message :: "string \<Rightarrow> string \<Rightarrow> string" where
  "default_error_message file_to_monitor cb =
     ''Could not find this event in '' @ file_to_monitor @ '': '' @ cb"

definition check_analysisd_event ::
  "('r, 'm) re_engine \<Rightarrow> 'm start_method \<Rightarrow> file_monitor option \<Rightarrow> string \<Rightarrow> string option
     \<Rightarrow> bool \<Rightarrow> nat \<Rightarrow> string option \<Rightarrow> nat \<Rightarrow> string \<Rightarrow> (error + unit) \<times> file_monitor" where
  "check_analysisd_event re start_m file_monitor cb msg upd tmo pfx accum file_to_monitor =
     (let file_monitor' =
            (case file_monitor of None \<Rightarrow> FileMonitor file_to_monitor | Some m \<Rightarrow> m);
          msg' = (case msg of None \<Rightarrow> default_error_message file_to_monitor cb | Some e \<Rightarrow> e)
      in case make_analysisd_callback re cb pfx of
           Inl e \<Rightarrow> (Inl e, file_monitor')
         | Inr f \<Rightarrow>
             discard_result
               (start_m \<lparr>timeout = tmo, callback = f, update_position = upd,
                         accum_results = Some accum, error_message = msg'\<rparr> file_monitor'))"

section \<open>remote.py: the queue socket check\<close>

text \<open>
  The calls of \<open>check_queue_socket_event\<close> leave the repository's sources
  (\<open>control_service\<close>, \<open>file.bind_unix_socket\<close>, \<open>monitoring\<close>). Each is an event of a
  trace, and the environment \<open>env\<close> says which calls raise and what.
\<close>

datatype event =
    Make_callback string string
  | Control_service string string
  | Bind_unix_socket string string
  | ManInTheMiddle_init string string string
  | Mitm_start
  | QueueMonitor_init
  | Monitor_start nat string bool
  | Mitm_shutdown





definition UDP :: string where
  "UDP = ''UDP''"




section \<open>remote.py: the ping message\<close>

text \<open>
  A \<open>bytes\<close> value is the list of its bytes, each a number below 256. \<open>encode\<close> is
  \<open>str.encode()\<close> on ASCII text, which is also what a \<open>bytes\<close> literal of ASCII text
  denotes. \<open>protocol.upper()\<close> is modelled on the ASCII letters; no other character has
  \<open>U\<close>, \<open>D\<close> or \<open>P\<close> for its upper case, so the comparison with \<open>UDP\<close> is the one of
  the source.
\<close>

type_synonym bytes = "nat list"

definition encode :: "string \<Rightarrow> bytes" where
  "encode s = map of_char s"

definition ascii_upper :: "char \<Rightarrow> char" where
  "ascii_upper c =
     (case map_of (zip ''abcdefghijklmnopqrstuvwxyz'' ''ABCDEFGHIJKLMNOPQRSTUVWXYZ'') c of
        None \<Rightarrow> c
      | Some u \<Rightarrow> u)"

definition py_upper :: "string \<Rightarrow> string" where
  "py_upper s = map ascii_upper s"

text \<open>
  \<open>n.to_bytes(len, 'little')\<close>: the \<open>len\<close> low bytes of \<open>n\<close>, least significant first;
  \<open>OverflowError\<close> if \<open>n\<close> does not fit.
\<close>

fun le_bytes :: "nat \<Rightarrow> nat \<Rightarrow> bytes" where
  "le_bytes n 0 = []"
| "le_bytes n (Suc len) = n mod 256 # le_bytes (n div 256) len"

definition to_bytes_little :: "nat \<Rightarrow> nat \<Rightarrow> error + bytes" where
  "to_bytes_little n len = (if n < 256 ^ len then Inr (le_bytes n len) else Inl OverflowError)"

text \<open>The slice \<open>xs[-n:]\<close> for a positive \<open>n\<close>: all of \<open>xs\<close> if it is shorter than \<open>n\<close>.\<close>

definition py_last :: "nat \<Rightarrow> 'a list \<Rightarrow> 'a list" where
  "py_last n xs = drop (length xs - n) xs"

text \<open>
  The socket is a parameter: \<open>net ty address port sent bufsize\<close> is what \<open>recv(bufsize)\<close>
  returns on a socket of type \<open>ty\<close> connected to \<open>(address, port)\<close> after \<open>send(sent)\<close>, or
  the exception that one of \<open>connect\<close>, \<open>send\<close> and \<open>recv\<close> raises.
\<close>

datatype sock_type = SOCK_DGRAM | SOCK_STREAM

type_synonym network = "sock_type \<Rightarrow> string \<Rightarrow> nat \<Rightarrow> bytes \<Rightarrow> nat \<Rightarrow> error + bytes"

text \<open>
  \<^verbatim>\<open>
  def send_ping_pong_messages(protocol, manager_address, port):
      protocol = protocol.upper()
      if protocol == UDP:
          sock = socket.socket(socket.AF_INET, socket.SOCK_DGRAM)
          ping_msg = b'#ping'
      else:
          sock = socket.socket(socket.AF_INET, socket.SOCK_STREAM)
          msg = '#ping'
          msg_size = len(bytearray(msg, 'utf-8'))
          ping_msg = msg_size.to_bytes(4, 'little') + msg.encode()
      sock.connect((manager_address, port))
      sock.send(ping_msg)
      response = sock.recv(len(ping_msg))
      sock.close()
      return response if protocol == UDP else response[-5:]
  \<close>
\<close>

definition send_ping_pong_messages :: "network \<Rightarrow> string \<Rightarrow> string \<Rightarrow> nat \<Rightarrow> error + bytes" where
  "send_ping_pong_messages net protocol manager_address port =
     (let protocol' = py_upper protocol;
          prepared =
            (if protocol' = UDP then Inr (SOCK_DGRAM, encode ''#ping'')
             else (let msg = ''#ping''; msg_size = length (encode msg)
                   in case to_bytes_little msg_size 4 of
                        Inl e \<Rightarrow> Inl e
                      | Inr size_bytes \<Rightarrow> Inr (SOCK_STREAM, size_bytes @ encode msg)))
      in case prepared of
           Inl e \<Rightarrow> Inl e
         | Inr (sock, ping_msg) \<Rightarrow>
             (case net sock manager_address port ping_msg (length ping_msg) of
                Inl e \<Rightarrow> Inl e
              | Inr response \<Rightarrow>
                  Inr (if protocol' = UDP then response else py_last 5 response)))"

text \<open>
  Two managers for concrete runs. The first listens on the datagram port only and answers
  the bytes of \<open>#ping\<close> with \<open>#pong\<close>; the second listens on the stream port only and
  answers the length-prefixed \<open>#ping\<close> with the length-prefixed \<open>#pong\<close>. \<open>recv\<close> returns
  at most \<open>bufsize\<close> bytes of the answer; anything else is refused.
\<close>

definition udp_manager :: network where
  "udp_manager ty address port sent bufsize =
     (if ty = SOCK_DGRAM \<and> sent = encode ''#ping''
      then Inr (take bufsize (encode ''#pong''))
      else Inl (OSError ''Connection refused''))"

definition tcp_manager :: network where
  "tcp_manager ty address port sent bufsize =
     (if ty = SOCK_STREAM \<and> sent = le_bytes 5 4 @ encode ''#ping''
      then Inr (take bufsize (le_bytes 5 4 @ encode ''#pong''))
      else Inl (OSError ''Connection refused''))"

section \<open>Properties of the string operations\<close>

lemma collapse_ws_space:
  "isspace c \<Longrightarrow> collapse_ws (c # cs) = ws_token @ collapse_ws (dropWhile isspace cs)"
  by (induction cs arbitrary: c) auto

lemma split_ws_dropWhile: "split_ws [] (dropWhile isspace s) = split_ws [] s"
  by (induction s) auto

lemma split_ws_snoc: "isspace c \<Longrightarrow> split_ws cur (s @ [c]) = split_ws cur s"
  by (induction s arbitrary: cur) auto

lemma split_ws_append_spaces:
  "\<forall>c \<in> set ws. isspace c \<Longrightarrow> split_ws cur (s @ ws) = split_ws cur s"
proof (induction ws rule: rev_induct)
  case Nil
  then show ?case by simp
next
  case (snoc x xs)
  then have "split_ws cur ((s @ xs) @ [x]) = split_ws cur (s @ xs)"
    by (intro split_ws_snoc) simp
  with snoc show ?case by simp
qed

lemma rstrip_decomp:
  "t = rev (dropWhile isspace (rev t)) @ rev (takeWhile isspace (rev t))"
  by (metis rev_append rev_rev_ident takeWhile_dropWhile_id)

lemma py_split_strip: "py_split (py_strip s) = py_split s"
proof -
  let ?t = "dropWhile isspace s"
  have a: "\<forall>c \<in> set (rev (takeWhile isspace (rev ?t))). isspace c"
    by (auto dest: set_takeWhileD)
  have "split_ws [] ?t = split_ws [] (rev (dropWhile isspace (rev ?t)) @ rev (takeWhile isspace (rev ?t)))"
    using rstrip_decomp [of ?t] by simp
  also have "\<dots> = split_ws [] (rev (dropWhile isspace (rev ?t)))"
    using a by (rule split_ws_append_spaces)
  finally show ?thesis
    by (simp add: py_split_def py_strip_def split_ws_dropWhile)
qed

lemma split_ws_nonempty:
  "s \<noteq> [] \<Longrightarrow> \<not> isspace (last s) \<Longrightarrow> split_ws cur s \<noteq> []"
  by (induction s arbitrary: cur) (auto split: if_splits)

lemma py_join_cons: "ws \<noteq> [] \<Longrightarrow> py_join sep (w # ws) = w @ sep @ py_join sep ws"
  by (cases ws) auto

lemma join_split_collapse:
  "s = [] \<or> \<not> isspace (last s) \<Longrightarrow>
   (cur \<noteq> [] \<longrightarrow> py_join ws_token (split_ws cur s) = cur @ collapse_ws s) \<and>
   py_join ws_token (split_ws [] s) = collapse_ws (dropWhile isspace s)"
proof (induction s arbitrary: cur)
  case Nil
  then show ?case by simp
next
  case (Cons c cs)
  have tl: "cs = [] \<or> \<not> isspace (last cs)" using Cons.prems by (auto split: if_splits)
  note IH = Cons.IH [OF tl]
  show ?case
  proof (cases "isspace c")
    case True
    then have ne: "cs \<noteq> []" "\<not> isspace (last cs)" using Cons.prems by (auto split: if_splits)
    then have sne: "split_ws [] cs \<noteq> []" by (rule split_ws_nonempty)
    show ?thesis using True IH [of "[]"] sne
      by (simp add: py_join_cons collapse_ws_space)
  next
    case False
    have c1: "collapse_ws (c # cs) = c # collapse_ws cs" using False by (cases cs) auto
    show ?thesis using False IH [of "cur @ [c]"] IH [of "[c]"] c1 by simp
  qed
qed

lemma py_strip_ends:
  "py_strip s = [] \<or> \<not> isspace (last (py_strip s))"
proof -
  let ?u = "dropWhile isspace (rev (dropWhile isspace s))"
  show ?thesis
  proof (cases "?u")
    case Nil
    then show ?thesis by (simp add: py_strip_def)
  next
    case (Cons a as)
    then have "\<not> isspace (hd ?u)" using hd_dropWhile [of isspace "rev (dropWhile isspace s)"] by simp
    then show ?thesis using Cons by (simp add: py_strip_def last_rev)
  qed
qed

lemma dropWhile_py_strip: "dropWhile isspace (py_strip s) = py_strip s"
proof (cases "dropWhile isspace s")
  case Nil
  show ?thesis unfolding py_strip_def Nil by simp
next
  case (Cons a as)
  then have na: "\<not> isspace a" using hd_dropWhile [of isspace s] by (metis list.sel(1) list.distinct(1))
  have "py_strip s = rev (dropWhile isspace (rev as @ [a]))" using Cons by (simp add: py_strip_def)
  also have "\<dots> = rev (dropWhile isspace (rev as) @ [a]) \<or> \<dots> = rev (dropWhile isspace (rev as @ [a]))" by simp
  finally have "py_strip s \<noteq> [] \<and> hd (py_strip s) = a"
    using na Cons by (auto simp: py_strip_def dropWhile_append3 dropWhile_append split: if_splits)
  then show ?thesis using na by (cases "py_strip s") auto
qed

lemma normalize_pattern_collapse: "normalize_pattern p = collapse_ws (py_strip p)"
proof -
  have "normalize_pattern p = py_join ws_token (split_ws [] (py_strip p))"
    using py_split_strip [of p] by (simp add: normalize_pattern_def py_split_def)
  also have "\<dots> = collapse_ws (dropWhile isspace (py_strip p))"
    using join_split_collapse [OF py_strip_ends [of p], of "[]"] by simp
  finally show ?thesis by (simp add: dropWhile_py_strip)
qed

lemmas str_eval =
  normalize_pattern_def py_split_def isspace_def ws_token_def regex_source_def py_format2_def
  py_str_def py_strip_def

lemmas mini_eval =
  mini_re_def mini_compile_def mini_match_def plain_tok_def escaped_tok_def isdigit_def
  isalpha_ascii_def make_analysisd_callback_def apply_callback_def compile_and_match_def

section \<open>The callback construction\<close>

text \<open>
  C1, as stated, at the pattern \<open>" a"\<close> with the prefix \<open>x\<close>: replacing every run of
  whitespace gives the expression \<open>x\s+a\<close>, which does not match the line \<open>xa\<close>; the
  code drops the leading run, compiles \<open>xa\<close>, and its matcher accepts that line.
\<close>

theorem collapse_every_run_counterexample:
  "regex_source '' a'' (Some ''x'') = ''xa'' \<and>
   ''x'' @ collapse_ws '' a'' = ''x'' @ ws_token @ ''a'' \<and>
   regex_source '' a'' (Some ''x'') \<noteq> ''x'' @ collapse_ws '' a'' \<and>
   apply_callback (make_analysisd_callback mini_re '' a'' (Some ''x'')) ''xa'' = Some (PyBool True) \<and>
   compile_and_match mini_re (''x'' @ collapse_ws '' a'') ''xa'' = Some None"
  by (simp add: str_eval mini_eval)

text \<open>
  C1, amended: for every pattern \<open>P\<close> and every prefix string, the matcher returned by
  \<open>make_analysisd_callback\<close> is built by compiling the prefix followed by \<open>P\<close> without
  its leading and trailing whitespace and with every remaining run of whitespace replaced
  by one \<open>\s+\<close> token, and it accepts a line exactly when that compiled expression matches
  at the start of the line.
\<close>

theorem make_analysisd_callback_normalized:
  "make_analysisd_callback re P (Some pfx) =
     (case re_compile re (pfx @ collapse_ws (py_strip P)) of
        None \<Rightarrow> Inl ReError
      | Some regex \<Rightarrow> Inr (\<lambda>line. PyBool (re_match re regex line \<noteq> None)))"
  by (simp add: make_analysisd_callback_def regex_source_def py_format2_def py_str_def
      normalize_pattern_collapse)

text \<open>
  C1, the amended statement at the pattern \<open>" a  b "\<close> with the prefix \<open>x\<close>: the compiled
  expression is \<open>xa\s+b\<close>, and the matcher accepts \<open>xa b\<close> and rejects \<open>xab\<close>.
\<close>

theorem make_analysisd_callback_normalized_witness:
  "''x'' @ collapse_ws (py_strip '' a  b '') = ''xa'' @ ws_token @ ''b'' \<and>
   apply_callback (make_analysisd_callback mini_re '' a  b '' (Some ''x'')) ''xa b'' = Some (PyBool True) \<and>
   apply_callback (make_analysisd_callback mini_re '' a  b '' (Some ''x'')) ''xab'' = Some (PyBool False)"
  using make_analysisd_callback_normalized [of mini_re "'' a  b ''" "''x''"]
  by (simp add: str_eval mini_eval)

text \<open>
  C5, as stated, at the pattern \<open>a\<close> with the prefix \<open>x\<close>: the line \<open>xa\<close> matches, with
  the match object \<open>xa\<close>, and the matcher returns the boolean \<open>True\<close>, not the match
  object; the line \<open>b\<close> does not match and the matcher returns \<open>False\<close>, not \<open>None\<close>.
\<close>

theorem matcher_returns_match_object_counterexample:
  "compile_and_match mini_re (regex_source ''a'' (Some ''x'')) ''xa'' = Some (Some ''xa'') \<and>
   apply_callback (make_analysisd_callback mini_re ''a'' (Some ''x'')) ''xa'' = Some (PyBool True) \<and>
   apply_callback (make_analysisd_callback mini_re ''a'' (Some ''x'')) ''xa'' \<noteq> Some (PyMatch ''xa'') \<and>
   compile_and_match mini_re (regex_source ''a'' (Some ''x'')) ''b'' = Some None \<and>
   apply_callback (make_analysisd_callback mini_re ''a'' (Some ''x'')) ''b'' = Some (PyBool False) \<and>
   apply_callback (make_analysisd_callback mini_re ''a'' (Some ''x'')) ''b'' \<noteq> Some PyNone"
  by (simp add: str_eval mini_eval)

text \<open>
  C5, amended: for every pattern and prefix, the matcher produced by
  \<open>make_analysisd_callback\<close>, applied to one line, returns the boolean \<open>True\<close> when the
  compiled expression matches at the start of the line and the boolean \<open>False\<close> when it
  does not; the match object and its groups are not returned.
\<close>

theorem matcher_returns_bool:
  "apply_callback (make_analysisd_callback re P pfx) line =
     (case compile_and_match re (regex_source P pfx) line of
        None \<Rightarrow> None
      | Some m \<Rightarrow> Some (PyBool (m \<noteq> None)))"
  by (simp add: make_analysisd_callback_def apply_callback_def compile_and_match_def
      split: option.splits)

text \<open>
  C5, the amended statement at the pattern \<open>a  b\<close> with the prefix \<open>.*x\<close>, on a line
  that matches and on one that does not.
\<close>

theorem matcher_returns_bool_witness:
  "apply_callback (make_analysisd_callback mini_re ''a  b'' (Some ''.*x'')) ''zzxa b'' = Some (PyBool True) \<and>
   apply_callback (make_analysisd_callback mini_re ''a  b'' (Some ''.*x'')) ''xab'' = Some (PyBool False)"
  using matcher_returns_bool [of mini_re "''a  b''" "Some ''.*x''" "''zzxa b''"]
    matcher_returns_bool [of mini_re "''a  b''" "Some ''.*x''" "''xab''"]
  by (simp add: str_eval mini_eval)

text \<open>
  C6, as stated, at the pattern \<open>a\<close> with the prefix \<open>None\<close>: the compiled expression is
  \<open>Nonea\<close>, not the normalized pattern \<open>a\<close>, and the matcher rejects the line \<open>a\<close>, which
  the pattern alone matches.
\<close>

theorem none_prefix_counterexample:
  "regex_source ''a'' None = ''Nonea'' \<and>
   normalize_pattern ''a'' = ''a'' \<and>
   regex_source ''a'' None \<noteq> normalize_pattern ''a'' \<and>
   apply_callback (make_analysisd_callback mini_re ''a'' None) ''a'' = Some (PyBool False) \<and>
   compile_and_match mini_re (normalize_pattern ''a'') ''a'' = Some (Some ''a'')"
  by (simp add: str_eval mini_eval)

text \<open>
  C6, amended: for every pattern \<open>P\<close>, when \<open>make_analysisd_callback\<close> is given the empty
  string as prefix, the compiled expression is exactly the normalized pattern with nothing
  prepended, and the matcher accepts a line exactly when the normalized pattern alone
  matches at its start.
\<close>

theorem empty_prefix_is_pattern_alone:
  "regex_source P (Some []) = normalize_pattern P \<and>
   apply_callback (make_analysisd_callback re P (Some [])) line =
     (case compile_and_match re (normalize_pattern P) line of
        None \<Rightarrow> None
      | Some m \<Rightarrow> Some (PyBool (m \<noteq> None)))"
  by (simp add: make_analysisd_callback_def apply_callback_def compile_and_match_def
      regex_source_def py_format2_def py_str_def split: option.splits)

text \<open>
  C6, the amended statement at the pattern \<open>a  b\<close> with the empty prefix.
\<close>

theorem empty_prefix_is_pattern_alone_witness:
  "regex_source ''a  b'' (Some []) = ''a'' @ ws_token @ ''b'' \<and>
   apply_callback (make_analysisd_callback mini_re ''a  b'' (Some [])) ''a b c'' = Some (PyBool True) \<and>
   apply_callback (make_analysisd_callback mini_re ''a  b'' (Some [])) ''xa b'' = Some (PyBool False)"
  using empty_prefix_is_pattern_alone [of "''a  b''" mini_re "''a b c''"]
    empty_prefix_is_pattern_alone [of "''a  b''" mini_re "''xa b''"]
  by (simp add: str_eval mini_eval)

section \<open>Properties of the monitor\<close>

lemma scan_more:
  "length acc + length (filter truthy (map cb ls)) < n \<Longrightarrow>
   scan cb n acc ls = (acc @ filter truthy (map cb ls), length ls, False)"
  by (induction ls arbitrary: acc) (auto simp: Let_def)

lemma scan_done:
  "length acc < n \<Longrightarrow> n \<le> length acc + length (filter truthy (map cb ls)) \<Longrightarrow>
   \<exists>u. scan cb n acc ls = (acc @ take (n - length acc) (filter truthy (map cb ls)), u, True)"
proof (induction ls arbitrary: acc)
  case Nil
  then show ?case by simp
next
  case (Cons l ls)
  show ?case
  proof (cases "truthy (cb l)")
    case False
    then show ?thesis using Cons.IH [of acc] Cons.prems by (auto simp: Let_def)
  next
    case True
    show ?thesis
    proof (cases "Suc (length acc) = n")
      case True
      with \<open>truthy (cb l)\<close> show ?thesis by (auto simp: Let_def)
    next
      case False
      then have "length (acc @ [cb l]) < n" using Cons.prems by simp
      moreover have "n \<le> length (acc @ [cb l]) + length (filter truthy (map cb ls))"
        using Cons.prems True by simp
      ultimately obtain u where
        "scan cb n (acc @ [cb l]) ls =
           ((acc @ [cb l]) @ take (n - length (acc @ [cb l])) (filter truthy (map cb ls)), u, True)"
        using Cons.IH [of "acc @ [cb l]"] by blast
      moreover have "n - length acc = Suc (n - Suc (length acc))" using Cons.prems by simp
      ultimately show ?thesis using True False by (auto simp: Let_def)
    qed
  qed
qed

lemma take_max_split:
  "take (max p q) ys = take p ys @ take (q - min p (length ys)) (drop (min p (length ys)) ys)"
proof (cases "p \<le> length ys")
  case True
  then have "min p (length ys) = p" by simp
  moreover have "take p ys @ take (q - p) (drop p ys) = take (p + (q - p)) ys"
    by (simp add: take_add)
  moreover have "p + (q - p) = max p q" by simp
  ultimately show ?thesis by simp
next
  case False
  then show ?thesis by simp
qed

lemma drop_take_split:
  "drop a (take (max v h) xs) =
   drop a (take v xs) @ drop (a + length (drop a (take v xs))) (take h xs)"
proof -
  have "drop a (take (max v h) xs) = take (max (v - a) (h - a)) (drop a xs)"
    by (simp add: drop_take max_def)
  also have "\<dots> = take (v - a) (drop a xs) @
      take ((h - a) - min (v - a) (length (drop a xs))) (drop (min (v - a) (length (drop a xs))) (drop a xs))"
    by (rule take_max_split)
  also have "\<dots> = drop a (take v xs) @ drop (a + length (drop a (take v xs))) (take h xs)"
    by (simp add: drop_take add.commute min_def)
  finally show ?thesis .
qed

lemma poll_char:
  "length acc < n \<Longrightarrow>
   fst (poll cb n src k tick off acc) =
     (let ms = filter truthy (map cb (drop off (take (horizon_from src tick k) (written src))))
      in if n \<le> length acc + length ms then Some (acc @ take (n - length acc) ms) else None)"
proof (induction k arbitrary: tick off acc)
  case 0
  then show ?case by simp
next
  case (Suc k)
  let ?batch = "drop off (take (flushed src tick) (written src))"
  let ?rest = "drop (off + length ?batch) (take (horizon_from src (Suc tick) k) (written src))"
  let ?mb = "filter truthy (map cb ?batch)"
  let ?mr = "filter truthy (map cb ?rest)"
  have split: "drop off (take (horizon_from src tick (Suc k)) (written src)) = ?batch @ ?rest"
    by (simp add: drop_take_split)
  show ?case
  proof (cases "n \<le> length acc + length ?mb")
    case True
    then obtain u where "scan cb n acc ?batch = (acc @ take (n - length acc) ?mb, u, True)"
      using scan_done [OF Suc.prems, of cb ?batch] by blast
    then show ?thesis using True unfolding split by (simp add: Let_def)
  next
    case False
    then have sc: "scan cb n acc ?batch = (acc @ ?mb, length ?batch, False)"
      by (intro scan_more) simp
    have "length (acc @ ?mb) < n" using False by simp
    from Suc.IH [OF this, of "Suc tick" "off + length ?batch"]
    have "fst (poll cb n src k (Suc tick) (off + length ?batch) (acc @ ?mb)) =
        (if n \<le> length (acc @ ?mb) + length ?mr
         then Some ((acc @ ?mb) @ take (n - length (acc @ ?mb)) ?mr) else None)"
      by (simp add: Let_def)
    then show ?thesis using False sc unfolding split
      by (simp add: Let_def add.assoc)
  qed
qed

lemma start_char:
  assumes "0 < accum_of dflt kw"
  shows "fst (start dflt mon kw src) =
     (let ms = matches_seen (callback kw) src (timeout kw) (start_offset mon kw)
      in if accum_of dflt kw \<le> length ms
         then Inr (result_of (accum_of dflt kw) (take (accum_of dflt kw) ms))
         else Inl (TimeoutError (error_message kw)))"
proof -
  let ?p = "poll (callback kw) (accum_of dflt kw) src (timeout kw) 0 (start_offset mon kw) []"
  have "length ([] :: 'a pyval list) < accum_of dflt kw" using assms by simp
  from poll_char [OF this, of "callback kw" src "timeout kw" 0 "start_offset mon kw"]
  have f: "fst ?p =
      (let ms = matches_seen (callback kw) src (timeout kw) (start_offset mon kw)
       in if accum_of dflt kw \<le> length ms then Some (take (accum_of dflt kw) ms) else None)"
    by (simp add: matches_seen_def observed_def Let_def)
  obtain r off where p: "?p = (r, off)" by (cases ?p)
  show ?thesis using f p
    by (cases r) (auto simp: start_def Let_def split: if_splits)
qed

lemma result_of_many: "n \<noteq> 1 \<Longrightarrow> result_of n acc = Multi acc"
  by (cases "(n, acc)" rule: result_of.cases) auto

lemmas monitor_eval =
  start_def start_on_def accum_of_def start_offset_def matches_seen_def observed_def
  static_source_def growing_source_def empty_fs_def FileMonitor_def line_is_def starts_with_def
  detect_archives_log_event_def check_analysisd_event_def discard_result_def
  default_error_message_def Let_def

text \<open>
  C2: a \<open>start\<close> call that observes fewer than \<open>accum_results\<close> matches before the
  timeout raises \<open>TimeoutError\<close> with the caller's \<open>error_message\<close>; and whatever the
  \<open>start\<close> method of the monitor raises, \<open>detect_archives_log_event\<close> and
  \<open>check_analysisd_event\<close> raise it to their caller (for \<open>check_analysisd_event\<close> the
  message passed to \<open>start\<close> is the caller's, or the default when the caller gave none).
\<close>

theorem timeout_raised_and_propagated:
  "(length (matches_seen (callback kw) src (timeout kw) (start_offset mon kw)) < accum_of dflt kw \<longrightarrow>
      fst (start dflt mon kw src) = Inl (TimeoutError (error_message kw))) \<and>
   (fst (start_m \<lparr>timeout = tmo, callback = cb, update_position = upd, accum_results = None,
                   error_message = msg\<rparr> am) = Inl e \<longrightarrow>
      fst (detect_archives_log_event start_m am cb msg upd tmo) = Inl e) \<and>
   (case make_analysisd_callback re pat pfx of
      Inl e' \<Rightarrow> fst (check_analysisd_event re start_m fm pat emsg upd tmo pfx accum ftm) = Inl e'
    | Inr f \<Rightarrow>
        fst (start_m \<lparr>timeout = tmo, callback = f, update_position = upd,
                       accum_results = Some accum,
                       error_message =
                         (case emsg of None \<Rightarrow> default_error_message ftm pat | Some m \<Rightarrow> m)\<rparr>
               (case fm of None \<Rightarrow> FileMonitor ftm | Some m \<Rightarrow> m)) = Inl err \<longrightarrow>
        fst (check_analysisd_event re start_m fm pat emsg upd tmo pfx accum ftm) = Inl err)"
proof (intro conjI)
  show "length (matches_seen (callback kw) src (timeout kw) (start_offset mon kw)) < accum_of dflt kw \<longrightarrow>
      fst (start dflt mon kw src) = Inl (TimeoutError (error_message kw))"
  proof
    assume few: "length (matches_seen (callback kw) src (timeout kw) (start_offset mon kw)) < accum_of dflt kw"
    then have "0 < accum_of dflt kw" by simp
    from start_char [OF this, of mon src] few
    show "fst (start dflt mon kw src) = Inl (TimeoutError (error_message kw))"
      by (simp add: Let_def)
  qed
next
  show "fst (start_m \<lparr>timeout = tmo, callback = cb, update_position = upd, accum_results = None,
                   error_message = msg\<rparr> am) = Inl e \<longrightarrow>
      fst (detect_archives_log_event start_m am cb msg upd tmo) = Inl e"
    by (auto simp: detect_archives_log_event_def discard_result_def split: prod.splits sum.splits)
next
  show "case make_analysisd_callback re pat pfx of
      Inl e' \<Rightarrow> fst (check_analysisd_event re start_m fm pat emsg upd tmo pfx accum ftm) = Inl e'
    | Inr f \<Rightarrow>
        fst (start_m \<lparr>timeout = tmo, callback = f, update_position = upd,
                       accum_results = Some accum,
                       error_message =
                         (case emsg of None \<Rightarrow> default_error_message ftm pat | Some m \<Rightarrow> m)\<rparr>
               (case fm of None \<Rightarrow> FileMonitor ftm | Some m \<Rightarrow> m)) = Inl err \<longrightarrow>
        fst (check_analysisd_event re start_m fm pat emsg upd tmo pfx accum ftm) = Inl err"
    by (auto simp: check_analysisd_event_def discard_result_def Let_def
        split: prod.splits sum.splits)
qed

text \<open>
  C2 on files where the line \<open>m\<close> never appears: \<open>start\<close> raises with the message, and
  so do both wrappers, \<open>check_analysisd_event\<close> with its default message.
\<close>

theorem timeout_raised_and_propagated_witness:
  "length (matches_seen (line_is ''m'') (static_source [''a'', ''b'']) (Suc (Suc 0)) 0) < 1 \<and>
   fst (start 1 (FileMonitor ''f'')
          \<lparr>timeout = Suc (Suc 0), callback = line_is ''m'', update_position = True,
           accum_results = None, error_message = ''no m''\<rparr>
          (static_source [''a'', ''b''])) = Inl (TimeoutError ''no m'') \<and>
   fst (detect_archives_log_event (start_on 1 empty_fs) (FileMonitor ''f'') (line_is ''m'')
          ''no m'' True (Suc (Suc 0))) = Inl (TimeoutError ''no m'') \<and>
   fst (check_analysisd_event mini_re (start_on 1 empty_fs) None ''m'' None True (Suc (Suc 0))
          (Some []) 1 ''f'') = Inl (TimeoutError ''Could not find this event in f: m'')"
  using timeout_raised_and_propagated
    [where kw = "\<lparr>timeout = Suc (Suc 0), callback = line_is ''m'', update_position = True,
                  accum_results = None, error_message = ''no m''\<rparr>"
       and src = "static_source [''a'', ''b'']" and mon = "FileMonitor ''f''" and dflt = 1
       and start_m = "start_on 1 empty_fs" and tmo = "Suc (Suc 0)" and cb = "line_is ''m''"
       and upd = True and msg = "''no m''" and am = "FileMonitor ''f''"
       and e = "TimeoutError ''no m''" and re = mini_re and pat = "''m''" and pfx = "Some []"
       and fm = None and emsg = None and accum = 1 and ftm = "''f''"
       and err = "TimeoutError ''Could not find this event in f: m''"]
  by (simp add: monitor_eval str_eval mini_eval)

text \<open>
  C3: for every \<open>N > 1\<close>, a \<open>start\<close> call with \<open>accum_results = N\<close> succeeds exactly
  when at least \<open>N\<close> matching lines are observed before the timeout, over all the poll
  iterations of the call together, and then returns the first \<open>N\<close> matches; otherwise it
  raises \<open>TimeoutError\<close>.
\<close>

theorem accum_results_counts_across_polls:
  assumes "accum_results kw = Some N" and "1 < N"
  shows "fst (start dflt mon kw src) =
     (let ms = matches_seen (callback kw) src (timeout kw) (start_offset mon kw)
      in if N \<le> length ms then Inr (Multi (take N ms))
         else Inl (TimeoutError (error_message kw)))"
proof -
  have n: "accum_of dflt kw = N" using assms(1) by (simp add: accum_of_def)
  then have "0 < accum_of dflt kw" using assms(2) by simp
  from start_char [OF this, of mon src] n assms(2) show ?thesis
    by (simp add: Let_def result_of_many)
qed

text \<open>
  C3 on the lines \<open>a, b, match-1, c, match-2\<close>, one more of them flushed at each poll
  iteration, with \<open>accum_results = 2\<close>: with five iterations the two matches, found in the
  third and the fifth iteration, make the call succeed; with four iterations it times out.
\<close>

theorem accum_results_counts_across_polls_witness:
  "fst (start 1 (FileMonitor ''f'')
          \<lparr>timeout = Suc (Suc (Suc (Suc (Suc 0)))), callback = starts_with ''match-'',
           update_position = True, accum_results = Some 2, error_message = ''e''\<rparr>
          (growing_source [''a'', ''b'', ''match-1'', ''c'', ''match-2''])) =
     Inr (Multi [PyBool True, PyBool True]) \<and>
   fst (start 1 (FileMonitor ''f'')
          \<lparr>timeout = Suc (Suc (Suc (Suc 0))), callback = starts_with ''match-'',
           update_position = True, accum_results = Some 2, error_message = ''e''\<rparr>
          (growing_source [''a'', ''b'', ''match-1'', ''c'', ''match-2''])) =
     Inl (TimeoutError ''e'')"
  using accum_results_counts_across_polls
    [where kw = "\<lparr>timeout = Suc (Suc (Suc (Suc (Suc 0)))), callback = starts_with ''match-'',
           update_position = True, accum_results = Some 2, error_message = ''e''\<rparr>"
       and N = 2 and dflt = 1 and mon = "FileMonitor ''f''"
       and src = "growing_source [''a'', ''b'', ''match-1'', ''c'', ''match-2'']"]
    accum_results_counts_across_polls
    [where kw = "\<lparr>timeout = Suc (Suc (Suc (Suc 0))), callback = starts_with ''match-'',
           update_position = True, accum_results = Some 2, error_message = ''e''\<rparr>"
       and N = 2 and dflt = 1 and mon = "FileMonitor ''f''"
       and src = "growing_source [''a'', ''b'', ''match-1'', ''c'', ''match-2'']"]
  by (simp add: monitor_eval)

text \<open>
  C4: with \<open>update_position = false\<close>, on a source whose content does not change, \<open>start\<close>
  leaves the monitor's position as it was, a second call gives the result of the first, and
  the result is the one of a scan from offset 0 whatever position the monitor remembers.
\<close>

theorem start_without_update_position_idempotent:
  assumes "\<not> update_position kw"
  shows "snd (start dflt mon kw (static_source ls)) = mon \<and>
     fst (start dflt (snd (start dflt mon kw (static_source ls))) kw (static_source ls)) =
       fst (start dflt mon kw (static_source ls)) \<and>
     fst (start dflt mon kw (static_source ls)) =
       fst (start dflt (mon\<lparr>position := 0\<rparr>) kw (static_source ls))"
proof -
  have s: "snd (start dflt m kw (static_source ls)) = m" for m
    using assms by (simp add: start_def Let_def split: prod.splits option.splits)
  have f: "fst (start dflt m kw (static_source ls)) = fst (start dflt m' kw (static_source ls))" for m m'
    using assms by (simp add: start_def start_offset_def Let_def split: prod.splits option.splits)
  show ?thesis using s f by simp
qed

text \<open>
  C4 on the file \<open>m, a\<close> with a monitor that remembers position 2: both calls find the
  line \<open>m\<close>, which lies before that position.
\<close>

theorem start_without_update_position_idempotent_witness:
  "snd (start 1 \<lparr>file_path = ''f'', position = Suc (Suc 0)\<rparr>
          \<lparr>timeout = Suc 0, callback = line_is ''m'', update_position = False,
           accum_results = None, error_message = ''e''\<rparr>
          (static_source [''m'', ''a''])) = \<lparr>file_path = ''f'', position = Suc (Suc 0)\<rparr> \<and>
   fst (start 1 \<lparr>file_path = ''f'', position = Suc (Suc 0)\<rparr>
          \<lparr>timeout = Suc 0, callback = line_is ''m'', update_position = False,
           accum_results = None, error_message = ''e''\<rparr>
          (static_source [''m'', ''a''])) = Inr (Single (PyBool True)) \<and>
   fst (start 1
          (snd (start 1 \<lparr>file_path = ''f'', position = Suc (Suc 0)\<rparr>
                  \<lparr>timeout = Suc 0, callback = line_is ''m'', update_position = False,
                   accum_results = None, error_message = ''e''\<rparr>
                  (static_source [''m'', ''a''])))
          \<lparr>timeout = Suc 0, callback = line_is ''m'', update_position = False,
           accum_results = None, error_message = ''e''\<rparr>
          (static_source [''m'', ''a''])) = Inr (Single (PyBool True))"
  using start_without_update_position_idempotent
    [where kw = "\<lparr>timeout = Suc 0, callback = line_is ''m'', update_position = False,
           accum_results = None, error_message = ''e''\<rparr>"
       and dflt = 1 and mon = "\<lparr>file_path = ''f'', position = Suc (Suc 0)\<rparr>"
       and ls = "[''m'', ''a'']"]
  by (simp add: monitor_eval)

section \<open>The queue socket check\<close>




section \<open>The default failure message\<close>

text \<open>
  C8, as stated, at a call that passes a monitor bound to \<open>alerts.log\<close> and leaves
  \<open>file_to_monitor\<close> at \<open>ossec.log\<close>, with no \<open>error_message\<close>: the monitored file is
  \<open>alerts.log\<close>, and the generated message names \<open>ossec.log\<close> and not the monitored file.
\<close>

theorem default_message_names_other_file_counterexample:
  "file_path (snd (check_analysisd_event mini_re (start_on 1 empty_fs)
      (Some (FileMonitor ''/var/ossec/logs/alerts/alerts.log'')) ''x'' None True (Suc 0)
      (Some []) 1 ''/var/ossec/logs/ossec.log'')) = ''/var/ossec/logs/alerts/alerts.log'' \<and>
   fst (check_analysisd_event mini_re (start_on 1 empty_fs)
      (Some (FileMonitor ''/var/ossec/logs/alerts/alerts.log'')) ''x'' None True (Suc 0)
      (Some []) 1 ''/var/ossec/logs/ossec.log'') =
     Inl (TimeoutError ''Could not find this event in /var/ossec/logs/ossec.log: x'') \<and>
   \<not> sublist ''/var/ossec/logs/alerts/alerts.log''
       ''Could not find this event in /var/ossec/logs/ossec.log: x''"
  by (simp add: monitor_eval str_eval mini_eval sublist_Cons_right)

text \<open>
  C8, amended: for every call to \<open>check_analysisd_event\<close> with no \<open>error_message\<close>, the
  monitor is started with a generated message that names the \<open>file_to_monitor\<close> argument
  and the pattern; \<open>file_to_monitor\<close> is the monitored file when the call creates the
  monitor itself; when the caller supplies an \<open>error_message\<close>, that message is passed
  unchanged.
\<close>

theorem default_error_message_names_file_to_monitor:
  "(case make_analysisd_callback re pat pfx of
      Inl e \<Rightarrow> fst (check_analysisd_event re start_m fm pat emsg upd tmo pfx accum ftm) = Inl e
    | Inr f \<Rightarrow>
        check_analysisd_event re start_m fm pat emsg upd tmo pfx accum ftm =
          discard_result
            (start_m \<lparr>timeout = tmo, callback = f, update_position = upd,
                      accum_results = Some accum,
                      error_message =
                        (case emsg of None \<Rightarrow> default_error_message ftm pat | Some m \<Rightarrow> m)\<rparr>
               (case fm of None \<Rightarrow> FileMonitor ftm | Some m \<Rightarrow> m))) \<and>
   sublist ftm (default_error_message ftm pat) \<and>
   sublist pat (default_error_message ftm pat) \<and>
   file_path (FileMonitor ftm) = ftm"
proof -
  have "sublist ftm (''Could not find this event in '' @ ftm @ ('': '' @ pat))"
    by (rule sublist_appendI)
  moreover have "sublist pat ((''Could not find this event in '' @ ftm @ '': '') @ pat @ [])"
    by (rule sublist_appendI)
  ultimately show ?thesis
    by (simp add: check_analysisd_event_def default_error_message_def FileMonitor_def Let_def
        split: sum.splits)
qed

text \<open>
  C8, the amended statement at a call with no monitor and no message, and at one with the
  message \<open>not found\<close>, on a file where the pattern never appears.
\<close>

theorem default_error_message_names_file_to_monitor_witness:
  "fst (check_analysisd_event mini_re (start_on 1 empty_fs) None ''x'' None True (Suc 0)
      (Some []) 1 ''/var/ossec/logs/ossec.log'') =
     Inl (TimeoutError ''Could not find this event in /var/ossec/logs/ossec.log: x'') \<and>
   file_path (snd (check_analysisd_event mini_re (start_on 1 empty_fs) None ''x'' None True
      (Suc 0) (Some []) 1 ''/var/ossec/logs/ossec.log'')) = ''/var/ossec/logs/ossec.log'' \<and>
   fst (check_analysisd_event mini_re (start_on 1 empty_fs) None ''x'' (Some ''not found'') True
      (Suc 0) (Some []) 1 ''/var/ossec/logs/ossec.log'') = Inl (TimeoutError ''not found'')"
  using default_error_message_names_file_to_monitor
    [where re = mini_re and pat = "''x''" and pfx = "Some []" and start_m = "start_on 1 empty_fs"
       and fm = None and emsg = None and upd = True and tmo = "Suc 0" and accum = 1
       and ftm = "''/var/ossec/logs/ossec.log''"]
    default_error_message_names_file_to_monitor
    [where re = mini_re and pat = "''x''" and pfx = "Some []" and start_m = "start_on 1 empty_fs"
       and fm = None and emsg = "Some ''not found''" and upd = True and tmo = "Suc 0"
       and accum = 1 and ftm = "''/var/ossec/logs/ossec.log''"]
  by (simp add: monitor_eval str_eval mini_eval)

section \<open>The ping message\<close>

lemma le_bytes_4:
  "le_bytes n 4 =
     [n mod 256, n div 256 mod 256, n div 256 div 256 mod 256, n div 256 div 256 div 256 mod 256]"
proof -
  have "(4::nat) = Suc (Suc (Suc (Suc 0)))" by simp
  then show ?thesis by (simp only: le_bytes.simps)
qed

lemma encode_ping: "encode ''#ping'' = [35, 112, 105, 110, 103]"
  by (simp add: encode_def)

lemma to_bytes_little_5: "to_bytes_little 5 4 = Inr [5, 0, 0, 0]"
  by (simp add: to_bytes_little_def le_bytes_4)

lemma py_last_suffix: "suffix (py_last n r) r \<and> length (py_last n r) = min n (length r)"
  by (auto simp: py_last_def suffix_drop)

lemma ascii_upper_U: "ascii_upper c = CHR ''U'' \<longleftrightarrow> c = CHR ''u'' \<or> c = CHR ''U''"
  by (auto simp: ascii_upper_def)

lemma ascii_upper_D: "ascii_upper c = CHR ''D'' \<longleftrightarrow> c = CHR ''d'' \<or> c = CHR ''D''"
  by (auto simp: ascii_upper_def)

lemma ascii_upper_P: "ascii_upper c = CHR ''P'' \<longleftrightarrow> c = CHR ''p'' \<or> c = CHR ''P''"
  by (auto simp: ascii_upper_def)

lemma py_upper_UDP:
  "py_upper s = ''UDP'' \<longleftrightarrow>
     s \<in> set [''udp'', ''udP'', ''uDp'', ''uDP'', ''Udp'', ''UdP'', ''UDp'', ''UDP'']"
proof -
  have "py_upper s = ''UDP'' \<longleftrightarrow>
      (\<exists>a b c. s = [a, b, c] \<and> ascii_upper a = CHR ''U'' \<and> ascii_upper b = CHR ''D'' \<and>
         ascii_upper c = CHR ''P'')"
    by (auto simp: py_upper_def map_eq_Cons_conv)
  then show ?thesis
    unfolding ascii_upper_U ascii_upper_D ascii_upper_P by auto
qed

text \<open>
  C10: if the protocol argument is \<open>UDP\<close> in any mix of upper and lower case, that is one
  of \<open>udp, udP, uDp, uDP, Udp, UdP, UDp, UDP\<close>, \<open>send_ping_pong_messages\<close> sends the five
  bytes of \<open>#ping\<close> on a datagram socket and returns the response as received; for every
  other protocol argument it sends, on a stream socket, the four bytes \<open>5, 0, 0, 0\<close> (the
  little-endian length of \<open>#ping\<close>) followed by the bytes of \<open>#ping\<close>, and returns the
  last five bytes of the response (all of it if it is shorter). An exception of the socket
  is raised to the caller.
\<close>

theorem send_ping_pong_messages_bytes:
  "send_ping_pong_messages net protocol manager_address port =
     (if protocol \<in> set [''udp'', ''udP'', ''uDp'', ''uDP'', ''Udp'', ''UdP'', ''UDp'', ''UDP'']
      then net SOCK_DGRAM manager_address port [35, 112, 105, 110, 103] 5
      else (case net SOCK_STREAM manager_address port [5, 0, 0, 0, 35, 112, 105, 110, 103] 9 of
              Inl e \<Rightarrow> Inl e
            | Inr response \<Rightarrow> Inr (py_last 5 response))) \<and>
   (py_upper protocol = ''UDP'') =
     (protocol \<in> set [''udp'', ''udP'', ''uDp'', ''uDP'', ''Udp'', ''UdP'', ''UDp'', ''UDP'']) \<and>
   encode ''#ping'' = [35, 112, 105, 110, 103] \<and>
   to_bytes_little (length (encode ''#ping'')) 4 = Inr [5, 0, 0, 0] \<and>
   suffix (py_last 5 r) r \<and> length (py_last 5 r) = min 5 (length r)"
proof -
  have s5: "Suc (Suc (Suc (Suc (Suc 0)))) = 5" by simp
  have s9: "Suc (Suc (Suc (Suc (Suc (Suc (Suc (Suc (Suc 0)))))))) = 9" by simp
  have "send_ping_pong_messages net protocol manager_address port =
     (if py_upper protocol = ''UDP''
      then net SOCK_DGRAM manager_address port [35, 112, 105, 110, 103] 5
      else (case net SOCK_STREAM manager_address port [5, 0, 0, 0, 35, 112, 105, 110, 103] 9 of
              Inl e \<Rightarrow> Inl e
            | Inr response \<Rightarrow> Inr (py_last 5 response)))"
    by (simp add: send_ping_pong_messages_def Let_def UDP_def encode_ping s5 s9
        to_bytes_little_5 split: sum.splits)
  then have "send_ping_pong_messages net protocol manager_address port =
     (if protocol \<in> set [''udp'', ''udP'', ''uDp'', ''uDP'', ''Udp'', ''UdP'', ''UDp'', ''UDP'']
      then net SOCK_DGRAM manager_address port [35, 112, 105, 110, 103] 5
      else (case net SOCK_STREAM manager_address port [5, 0, 0, 0, 35, 112, 105, 110, 103] 9 of
              Inl e \<Rightarrow> Inl e
            | Inr response \<Rightarrow> Inr (py_last 5 response)))"
    unfolding py_upper_UDP .
  moreover have "encode ''#ping'' = [35, 112, 105, 110, 103]"
    by (rule encode_ping)
  moreover have "to_bytes_little (length (encode ''#ping'')) 4 = Inr [5, 0, 0, 0]"
    by (simp add: encode_ping s5 to_bytes_little_5)
  ultimately show ?thesis
    using py_last_suffix [of 5 r] py_upper_UDP [of protocol] by blast
qed

text \<open>
  C10 with a manager that answers only datagrams and one that answers only the stream:
  \<open>udp\<close>, \<open>uDp\<close> and \<open>UDP\<close> reach the first with the bare \<open>#ping\<close> and are refused by
  the second; \<open>tcp\<close> and \<open>Tcp\<close> reach the second with the length-prefixed \<open>#ping\<close>, get
  the last five bytes of its answer, and are refused by the first.
\<close>

theorem send_ping_pong_messages_bytes_witness:
  "send_ping_pong_messages udp_manager ''udp'' ''127.0.0.1'' 1514 = Inr [35, 112, 111, 110, 103] \<and>
   send_ping_pong_messages udp_manager ''uDp'' ''127.0.0.1'' 1514 = Inr [35, 112, 111, 110, 103] \<and>
   send_ping_pong_messages udp_manager ''UDP'' ''127.0.0.1'' 1514 = Inr [35, 112, 111, 110, 103] \<and>
   send_ping_pong_messages tcp_manager ''udp'' ''127.0.0.1'' 1514 = Inl (OSError ''Connection refused'') \<and>
   send_ping_pong_messages tcp_manager ''tcp'' ''127.0.0.1'' 1514 = Inr [35, 112, 111, 110, 103] \<and>
   send_ping_pong_messages tcp_manager ''Tcp'' ''127.0.0.1'' 1514 = Inr [35, 112, 111, 110, 103] \<and>
   send_ping_pong_messages udp_manager ''tcp'' ''127.0.0.1'' 1514 = Inl (OSError ''Connection refused'') \<and>
   encode ''#pong'' = [35, 112, 111, 110, 103]"
  using send_ping_pong_messages_bytes [of udp_manager "''udp''" "''127.0.0.1''" 1514 "[]"]
    send_ping_pong_messages_bytes [of udp_manager "''uDp''" "''127.0.0.1''" 1514 "[]"]
    send_ping_pong_messages_bytes [of udp_manager "''UDP''" "''127.0.0.1''" 1514 "[]"]
    send_ping_pong_messages_bytes [of tcp_manager "''udp''" "''127.0.0.1''" 1514 "[]"]
    send_ping_pong_messages_bytes [of tcp_manager "''tcp''" "''127.0.0.1''" 1514 "[]"]
    send_ping_pong_messages_bytes [of tcp_manager "''Tcp''" "''127.0.0.1''" 1514 "[]"]
    send_ping_pong_messages_bytes [of udp_manager "''tcp''" "''127.0.0.1''" 1514 "[]"]
  by (simp add: udp_manager_def tcp_manager_def encode_def le_bytes_4 py_last_def)

end
